theory Spec2Isabelle
  imports Main
begin

section \<open>The playback queue of the TTS reader (usePlaybackQueue)\<close>

text \<open>
  A shallow embedding of the hook \<^verbatim>\<open>usePlaybackQueue\<close> and of the part of
  \<^verbatim>\<open>useAudioPlayer\<close> it drives. The hook is single-threaded JavaScript: a function runs
  without interruption until it reaches an \<^verbatim>\<open>await\<close> or returns. Every source function is
  therefore embedded as the state transformer of its synchronous stretch, and every
  suspension point becomes a pending task whose resumption is a transformer of its own,
  taking what the awaited call delivered as an argument.

  Conventions. Indices are JavaScript numbers that only ever hold integers here; they are
  \<open>int\<close>, so that \<open>-1\<close> and out-of-range arguments are inputs like any other. Strings are
  \<open>string\<close>. Durations are numbers on which no control flow depends beyond the falsy test
  of \<^verbatim>\<open>||\<close>; they are \<open>int\<close>. The store is the solid-js store: a path write
  \<^verbatim>\<open>setState("sentences", i, "status", v)\<close> with \<open>i\<close> out of range throws a TypeError,
  while \<^verbatim>\<open>setState("sentences", i, produce(f))\<close> with \<open>i\<close> out of range writes nothing.
  Calls to the backends whose rejection the hook swallows (\<^verbatim>\<open>musicStop().catch\<close> and its
  like) are recorded and have no continuation. \<^verbatim>\<open>handleMediaAction\<close> only forwards to
  the operations below and \<^verbatim>\<open>onCleanup\<close> ends the hook; neither is embedded.
\<close>

subsection \<open>Data (types/audio.ts)\<close>

datatype SentenceStatus = Pending | Generating | Ready | Playing | Played | Error

record AudioBuffer =
  payload :: string
  buffer_duration :: int

record Sentence =
  sentence_id :: nat
  sentence_text :: string
  status :: SentenceStatus
  audioBlob :: "string option"
  audioBuffer :: "AudioBuffer option"
  audioFileUrl :: "string option"
  duration :: "int option"
  error :: "string option"

record PlaybackState =
  sentences :: "Sentence list"
  currentIndex :: int
  isPlaying :: bool
  isPaused :: bool
  isLoading :: bool
  queueAhead :: int

record SynthesizeChunkResponse =
  resp_success :: bool
  resp_sentence_index :: int
  resp_audio_base64 :: "string option"
  resp_duration :: "int option"
  resp_error :: "string option"

subsection \<open>Suspended continuations and what resumes them\<close>

text \<open>
  A chain is one asynchronous invocation of \<^verbatim>\<open>playSentenceAtIndex\<close>: it carries the
  generation it was started with and, when the poll tick of interval \<open>h\<close> awaits it, that
  interval (whose \<^verbatim>\<open>isAdvancing\<close> flag is cleared when the chain's promise settles).
\<close>

datatype chain = Chain (chain_gen: nat) (chain_owner: "nat option")

datatype task =
    LoadAwait string
  | SynthAwait int "chain option"
  | SettledAwait int chain
  | TimerAwait int chain
  | MusicPlayAwait int chain
  | MusicStateAwait nat

datatype call =
    ClearAudioCache | SplitText string | Synthesize int
  | MusicPlay int | MusicPause | MusicResume | MusicStop | GetMusicState
  | AudioPlayBuffer int | AudioPause | AudioResume | AudioStop

text \<open>
  What \<^verbatim>\<open>generateSentence\<close> has in hand when it reaches its store write: the response
  of \<^verbatim>\<open>synthesize_chunk\<close>, the result of \<^verbatim>\<open>save_audio_to_file\<close> (\<open>None\<close> when it
  threw; consulted on Android only) and the result of \<^verbatim>\<open>decodeAudio\<close> (\<open>Inl\<close> when it
  rejected); or the rejection of \<^verbatim>\<open>synthesize_chunk\<close> itself.
\<close>

datatype synth_result =
    Responded SynthesizeChunkResponse "string option" "string + AudioBuffer"
  | InvokeRejected string

datatype music_state_result = MusicState bool int | MusicStateRejected string

datatype settled = Fulfilled | Rejected string

subsection \<open>The closure of usePlaybackQueue\<close>

text \<open>
  \<open>state\<close> is the store; \<open>generatingSet\<close>, \<open>playbackGeneration\<close>, \<open>pollInterval\<close>,
  \<open>lastAdvanceTime\<close> and \<open>currentlyPlayingIndex\<close> are the hook's local variables
  (a JavaScript Set keeps insertion order and no duplicates: a list). The remaining fields
  are the runtime around them: the module constant \<open>isAndroid\<close>; one entry
  (generation, isAdvancing) per call of \<^verbatim>\<open>startMusicStatePolling\<close>, the interval handle
  being its position; the handles whose timer has not been cleared; the handler installed
  on the shared audio element (index and generation captured by the callback of
  \<^verbatim>\<open>playWithHtml5Audio\<close>); the suspended continuations; the external calls issued.
\<close>

record Queue =
  state :: PlaybackState
  generatingSet :: "int list"
  playbackGeneration :: nat
  pollInterval :: "nat option"
  lastAdvanceTime :: int
  currentlyPlayingIndex :: int
  isAndroid :: bool
  pollClosures :: "(nat \<times> bool) list"
  liveIntervals :: "nat list"
  onended :: "(int \<times> nat) option"
  tasks :: "task list"
  calls :: "call list"

definition ADVANCE_DEBOUNCE_MS :: int where
  "ADVANCE_DEBOUNCE_MS = 300"

definition usePlaybackQueue :: "bool \<Rightarrow> int \<Rightarrow> Queue" where
  "usePlaybackQueue android ahead =
     \<lparr> state = \<lparr> sentences = [], currentIndex = -1, isPlaying = False, isPaused = False,
                 isLoading = False, queueAhead = ahead \<rparr>,
       generatingSet = [], playbackGeneration = 0, pollInterval = None,
       lastAdvanceTime = 0, currentlyPlayingIndex = -1, isAndroid = android,
       pollClosures = [], liveIntervals = [], onended = None, tasks = [], calls = [] \<rparr>"

subsection \<open>Store and runtime primitives\<close>

definition setState :: "(PlaybackState \<Rightarrow> PlaybackState) \<Rightarrow> Queue \<Rightarrow> Queue" where
  "setState f w = w\<lparr>state := f (state w)\<rparr>"

definition in_range :: "int \<Rightarrow> Queue \<Rightarrow> bool" where
  "in_range i w \<longleftrightarrow> 0 \<le> i \<and> i < int (length (sentences (state w)))"

definition sentence_at :: "Queue \<Rightarrow> int \<Rightarrow> Sentence" where
  "sentence_at w i = sentences (state w) ! nat i"

definition update_sentence :: "int \<Rightarrow> (Sentence \<Rightarrow> Sentence) \<Rightarrow> Queue \<Rightarrow> Queue" where
  "update_sentence i f w =
     setState (\<lambda>s. s\<lparr>sentences := (sentences s)[nat i := f (sentences s ! nat i)]\<rparr>) w"

definition set_status :: "int \<Rightarrow> SentenceStatus \<Rightarrow> Queue \<Rightarrow> Queue" where
  "set_status i v w = update_sentence i (\<lambda>s. s\<lparr>status := v\<rparr>) w"

definition add_call :: "call \<Rightarrow> Queue \<Rightarrow> Queue" where
  "add_call c w = w\<lparr>calls := calls w @ [c]\<rparr>"

definition add_task :: "task \<Rightarrow> Queue \<Rightarrow> Queue" where
  "add_task t w = w\<lparr>tasks := tasks w @ [t]\<rparr>"

definition set_add :: "int \<Rightarrow> int list \<Rightarrow> int list" where
  "set_add i xs = (if i \<in> set xs then xs else xs @ [i])"

definition set_delete :: "int \<Rightarrow> int list \<Rightarrow> int list" where
  "set_delete i xs = removeAll i xs"

definition clearInterval :: "nat \<Rightarrow> Queue \<Rightarrow> Queue" where
  "clearInterval h w = w\<lparr>liveIntervals := removeAll h (liveIntervals w)\<rparr>"

definition clear_poll :: "Queue \<Rightarrow> Queue" where
  "clear_poll w = (case pollInterval w of None \<Rightarrow> w | Some h \<Rightarrow> clearInterval h w)"

definition set_isAdvancing :: "nat \<Rightarrow> bool \<Rightarrow> Queue \<Rightarrow> Queue" where
  "set_isAdvancing h b w =
     w\<lparr>pollClosures := (pollClosures w)[h := (fst (pollClosures w ! h), b)]\<rparr>"

text \<open>
  The promise of a chain settles: a poll tick that awaited it runs on to its
  \<^verbatim>\<open>isAdvancing = false\<close> (reached as well through its \<^verbatim>\<open>catch\<close> when the chain threw).
\<close>

definition chain_settled :: "chain \<Rightarrow> Queue \<Rightarrow> Queue" where
  "chain_settled c w =
     (case chain_owner c of None \<Rightarrow> w | Some h \<Rightarrow> set_isAdvancing h False w)"

text \<open>JavaScript truthiness of a string-or-null and of \<^verbatim>\<open>a || b\<close> on the values used.\<close>

definition truthy_string :: "string option \<Rightarrow> bool" where
  "truthy_string v = (case v of None \<Rightarrow> False | Some s \<Rightarrow> s \<noteq> [])"

definition or_string :: "string option \<Rightarrow> string \<Rightarrow> string" where
  "or_string v d = (if truthy_string v then the v else d)"

definition or_number :: "int option \<Rightarrow> int \<Rightarrow> int" where
  "or_number v d = (case v of None \<Rightarrow> d | Some n \<Rightarrow> if n = 0 then d else n)"

text \<open>
  \<^verbatim>\<open>text.trim()\<close> is empty when every code unit is white space or a line terminator
  (of the code units below 256, which is what \<open>char\<close> holds: TAB, LF, VT, FF, CR, SP, NBSP).
\<close>

definition js_whitespace :: "char \<Rightarrow> bool" where
  "js_whitespace c \<longleftrightarrow> (of_char c :: nat) \<in> {9, 10, 11, 12, 13, 32, 160}"

definition trim_is_empty :: "string \<Rightarrow> bool" where
  "trim_is_empty t \<longleftrightarrow> list_all js_whitespace t"

subsection \<open>generateSentence\<close>

text \<open>
  The synchronous stretch up to \<^verbatim>\<open>await invoke("synthesize_chunk")\<close>. \<open>waiter\<close> is the
  chain that awaits the returned promise (\<open>None\<close> when \<^verbatim>\<open>triggerPreGeneration\<close> drops it).
  On the three early returns the promise is already settled, and an awaiting chain resumes
  from the microtask queue.
\<close>

definition already_settled :: "int \<Rightarrow> chain option \<Rightarrow> Queue \<Rightarrow> Queue" where
  "already_settled index waiter w =
     (case waiter of None \<Rightarrow> w | Some c \<Rightarrow> add_task (SettledAwait index c) w)"

definition generateSentence :: "int \<Rightarrow> chain option \<Rightarrow> Queue \<Rightarrow> Queue" where
  "generateSentence index waiter w =
     (if index < 0 \<or> index \<ge> int (length (sentences (state w))) then already_settled index waiter w
      else if index \<in> set (generatingSet w) then already_settled index waiter w
      else if status (sentence_at w index) \<noteq> Pending then already_settled index waiter w
      else add_task (SynthAwait index waiter)
             (add_call (Synthesize index)
               (set_status index Generating
                 (w\<lparr>generatingSet := set_add index (generatingSet w)\<rparr>))))"

text \<open>
  The store write that ends \<^verbatim>\<open>generateSentence\<close>, in its three branches (success,
  unsuccessful response, \<^verbatim>\<open>catch\<close>), followed by \<^verbatim>\<open>generatingSet.delete(index)\<close>.
  The function compares no generation.
\<close>

definition store_ready :: "int \<Rightarrow> AudioBuffer \<Rightarrow> string option \<Rightarrow> int option \<Rightarrow> Queue \<Rightarrow> Queue" where
  "store_ready index buf url dur w =
     (if in_range index w
      then update_sentence index
             (\<lambda>s. s\<lparr>status := Ready, audioBuffer := Some buf, audioFileUrl := url,
                    duration := Some (or_number dur (buffer_duration buf)), error := None\<rparr>) w
      else w)"

definition store_error :: "int \<Rightarrow> string \<Rightarrow> Queue \<Rightarrow> Queue" where
  "store_error index msg w =
     (if in_range index w
      then update_sentence index (\<lambda>s. s\<lparr>status := Error, error := Some msg\<rparr>) w
      else w)"

definition generateSentence_write :: "int \<Rightarrow> synth_result \<Rightarrow> Queue \<Rightarrow> Queue" where
  "generateSentence_write index r w =
     (let w' =
        (case r of
           InvokeRejected e \<Rightarrow> store_error index e w
         | Responded response saved decoded \<Rightarrow>
             if resp_success response \<and> truthy_string (resp_audio_base64 response)
             then (case decoded of
                     Inl e \<Rightarrow> store_error index e w
                   | Inr buf \<Rightarrow>
                       store_ready index buf (if isAndroid w then saved else None)
                         (resp_duration response) w)
             else store_error index (or_string (resp_error response) ''Unknown error'') w)
      in w'\<lparr>generatingSet := set_delete index (generatingSet w')\<rparr>)"

subsection \<open>triggerPreGeneration\<close>

text \<open>
  The guard of the loop body: \<^verbatim>\<open>sentence && sentence.status === 'pending' &&
  !generatingSet.has(i)\<close>, where \<^verbatim>\<open>state.sentences[i]\<close> is undefined out of range.
\<close>

definition needs_generation :: "int \<Rightarrow> Queue \<Rightarrow> bool" where
  "needs_generation i w \<longleftrightarrow>
     in_range i w \<and> status (sentence_at w i) = Pending \<and> i \<notin> set (generatingSet w)"

definition pregen_body :: "int \<Rightarrow> Queue \<Rightarrow> Queue" where
  "pregen_body i w = (if needs_generation i w then generateSentence i None w else w)"

function pregen_loop :: "int \<Rightarrow> int \<Rightarrow> Queue \<Rightarrow> Queue" where
  "pregen_loop i endIdx w =
     (if i < endIdx then pregen_loop (i + 1) endIdx (pregen_body i w) else w)"
  by pat_completeness auto
termination
  by (relation "measure (\<lambda>(i, endIdx, w). nat (endIdx - i))") auto

declare pregen_loop.simps [simp del]

definition triggerPreGeneration :: "int \<Rightarrow> Queue \<Rightarrow> Queue" where
  "triggerPreGeneration fromIndex w =
     pregen_loop fromIndex
       (min (fromIndex + queueAhead (state w) + 1) (int (length (sentences (state w))))) w"

subsection \<open>The two backends: polling the media session, the audio element\<close>

definition startMusicStatePolling :: "nat \<Rightarrow> Queue \<Rightarrow> Queue" where
  "startMusicStatePolling generation w =
     (let w' = clear_poll w; h = length (pollClosures w')
      in w'\<lparr>pollClosures := pollClosures w' @ [(generation, False)],
             pollInterval := Some h,
             liveIntervals := liveIntervals w' @ [h]\<rparr>)"

text \<open>
  \<^verbatim>\<open>playWithHtml5Audio\<close>: reading \<^verbatim>\<open>sentence.audioBuffer\<close> of a missing sentence throws
  before anything is written. \<^verbatim>\<open>playBuffer\<close> replaces the handler of the audio element.
\<close>

definition playWithHtml5Audio :: "int \<Rightarrow> nat \<Rightarrow> Queue \<Rightarrow> Queue" where
  "playWithHtml5Audio index generation w =
     (if \<not> in_range index w then w
      else case audioBuffer (sentence_at w index) of
             None \<Rightarrow> w
           | Some buf \<Rightarrow> (add_call (AudioPlayBuffer index) w)\<lparr>onended := Some (index, generation)\<rparr>)"

subsection \<open>playSentenceAtIndex\<close>

text \<open>
  The tail of \<^verbatim>\<open>playSentenceAtIndex\<close> for a sentence that is \<^verbatim>\<open>ready\<close>: mark it, start
  the pre-generation, and hand it to a backend. On Android with a saved file the function
  suspends at \<^verbatim>\<open>await musicPlay\<close>; otherwise its promise settles here.
\<close>

definition start_sentence :: "int \<Rightarrow> chain \<Rightarrow> Queue \<Rightarrow> Queue" where
  "start_sentence index c w =
     (let w1 = triggerPreGeneration index
                 (set_status index Playing (w\<lparr>currentlyPlayingIndex := index\<rparr>))
      in if isAndroid w1 \<and> truthy_string (audioFileUrl (sentence_at w1 index))
         then add_task (MusicPlayAwait index c) (add_call (MusicPlay index) w1)
         else chain_settled c (playWithHtml5Audio index (chain_gen c) w1))"

function playSentenceAtIndex :: "int \<Rightarrow> chain \<Rightarrow> Queue \<Rightarrow> Queue" where
  "playSentenceAtIndex index c w =
     (if chain_gen c \<noteq> playbackGeneration w then chain_settled c w
      else if index < 0 \<or> index \<ge> int (length (sentences (state w))) then chain_settled c w
      else if \<not> isPlaying (state w) \<or> isPaused (state w) then chain_settled c w
      else if currentlyPlayingIndex w = index then chain_settled c w
      else if status (sentence_at w index) = Pending then generateSentence index (Some c) w
      else if status (sentence_at w index) = Generating then add_task (TimerAwait index c) w
      else if status (sentence_at w index) = Error then
        (if index + 1 < int (length (sentences (state w)))
         then playSentenceAtIndex (index + 1) c (setState (\<lambda>s. s\<lparr>currentIndex := index + 1\<rparr>) w)
         else chain_settled c (setState (\<lambda>s. s\<lparr>isPlaying := False\<rparr>) w))
      else if status (sentence_at w index) \<noteq> Ready then chain_settled c w
      else start_sentence index c w)"
  by pat_completeness auto
termination
  by (relation "measure (\<lambda>(index, c, w). nat (int (length (sentences (state w))) - index))")
     (auto simp: setState_def)

declare playSentenceAtIndex.simps [simp del]

text \<open>
  Where a chain comes back from an \<^verbatim>\<open>await\<close> (the generation it waited for, the 100 ms
  timer): it compares its generation and re-enters.
\<close>

definition chain_resume :: "int \<Rightarrow> chain \<Rightarrow> Queue \<Rightarrow> Queue" where
  "chain_resume index c w =
     (if chain_gen c \<noteq> playbackGeneration w then chain_settled c w
      else playSentenceAtIndex index c w)"

definition generateSentence_resume :: "int \<Rightarrow> chain option \<Rightarrow> synth_result \<Rightarrow> Queue \<Rightarrow> Queue" where
  "generateSentence_resume index waiter r w =
     (let w' = generateSentence_write index r w
      in case waiter of None \<Rightarrow> w' | Some c \<Rightarrow> chain_resume index c w')"

definition musicPlay_resume :: "int \<Rightarrow> chain \<Rightarrow> bool \<Rightarrow> Queue \<Rightarrow> Queue" where
  "musicPlay_resume index c ok w =
     (if ok then chain_settled c (startMusicStatePolling (chain_gen c) w)
      else chain_settled c (playWithHtml5Audio index (chain_gen c) w))"

text \<open>The callback that \<^verbatim>\<open>playWithHtml5Audio\<close> passes to \<^verbatim>\<open>playBuffer\<close>.\<close>

definition audio_ended :: "Queue \<Rightarrow> Queue" where
  "audio_ended w =
     (case onended w of
        None \<Rightarrow> w
      | Some (index, generation) \<Rightarrow>
          if generation \<noteq> playbackGeneration w then w
          else if \<not> in_range index w then w
          else let w1 = set_status index Played w; nextIndex = index + 1
               in if nextIndex < int (length (sentences (state w1))) \<and> isPlaying (state w1)
                       \<and> \<not> isPaused (state w1)
                  then playSentenceAtIndex nextIndex (Chain generation None)
                         (setState (\<lambda>s. s\<lparr>currentIndex := nextIndex\<rparr>) w1)
                  else if nextIndex \<ge> int (length (sentences (state w1)))
                  then setState (\<lambda>s. s\<lparr>isPlaying := False, currentIndex := -1\<rparr>) w1
                  else w1)"

text \<open>
  The interval callback of \<^verbatim>\<open>startMusicStatePolling\<close>, up to \<^verbatim>\<open>await getMusicState()\<close>,
  and from there on. \<open>now\<close> is what \<^verbatim>\<open>Date.now()\<close> returns.
\<close>

definition poll_tick :: "nat \<Rightarrow> Queue \<Rightarrow> Queue" where
  "poll_tick h w =
     (if fst (pollClosures w ! h) \<noteq> playbackGeneration w then clear_poll w
      else if snd (pollClosures w ! h) then w
      else add_task (MusicStateAwait h) (add_call GetMusicState w))"

definition poll_advance :: "nat \<Rightarrow> int \<Rightarrow> Queue \<Rightarrow> Queue" where
  "poll_advance h now w =
     (let generation = fst (pollClosures w ! h);
          w1 = (set_isAdvancing h True w)\<lparr>lastAdvanceTime := now\<rparr>;
          cur = currentIndex (state w1);
          nextIndex = cur + 1
      in if \<not> in_range cur w1 then set_isAdvancing h False w1
         else if nextIndex < int (length (sentences (state w1)))
         then playSentenceAtIndex nextIndex (Chain generation (Some h))
                (setState (\<lambda>s. s\<lparr>currentIndex := nextIndex\<rparr>) (set_status cur Played w1))
         else set_isAdvancing h False
                (clear_poll
                  (setState (\<lambda>s. s\<lparr>isPlaying := False, currentIndex := -1\<rparr>)
                    (set_status cur Played w1))))"

definition poll_resume :: "nat \<Rightarrow> music_state_result \<Rightarrow> Queue \<Rightarrow> Queue" where
  "poll_resume h r w =
     (case r of
        MusicStateRejected e \<Rightarrow> set_isAdvancing h False w
      | MusicState musicIsPlaying now \<Rightarrow>
          if \<not> musicIsPlaying \<and> isPlaying (state w) \<and> \<not> isPaused (state w)
          then (if now - lastAdvanceTime w < ADVANCE_DEBOUNCE_MS then w
                else poll_advance h now w)
          else w)"

subsection \<open>The operations returned by the hook\<close>

definition play :: "Queue \<Rightarrow> Queue" where
  "play w =
     (if length (sentences (state w)) = 0 then w
      else if isPaused (state w) then
        (let w1 = setState (\<lambda>s. s\<lparr>isPaused := False\<rparr>) w
         in if isAndroid w1
            then startMusicStatePolling (playbackGeneration w1) (add_call MusicResume w1)
            else add_call AudioResume w1)
      else
        (let startIndex = (if currentIndex (state w) < 0 then 0 else currentIndex (state w));
             w1 = w\<lparr>playbackGeneration := playbackGeneration w + 1\<rparr>;
             w2 = setState (\<lambda>s. s\<lparr>isPlaying := True, isPaused := False,
                                   currentIndex := startIndex\<rparr>) w1
         in playSentenceAtIndex startIndex (Chain (playbackGeneration w2) None) w2))"

definition pause :: "Queue \<Rightarrow> Queue" where
  "pause w =
     (let w1 = setState (\<lambda>s. s\<lparr>isPaused := True\<rparr>) w
      in if isAndroid w1 then clear_poll (add_call MusicPause w1)
         else add_call AudioPause w1)"

text \<open>\<^verbatim>\<open>audioPlayer.stop()\<close> removes the handler of the audio element.\<close>

definition audioPlayer_stop :: "Queue \<Rightarrow> Queue" where
  "audioPlayer_stop w = (add_call AudioStop w)\<lparr>onended := None\<rparr>"

definition stop_backends :: "Queue \<Rightarrow> Queue" where
  "stop_backends w =
     (let w1 = (clear_poll w)\<lparr>pollInterval := None\<rparr>;
          w2 = (if isAndroid w1 then add_call MusicStop w1 else w1)
      in audioPlayer_stop w2)"

definition reset_status :: "Sentence \<Rightarrow> Sentence" where
  "reset_status s =
     (if status s = Playing \<or> status s = Played
      then s\<lparr>status := (if audioBuffer s \<noteq> None then Ready else Pending)\<rparr>
      else s)"

definition stopPlayback :: "Queue \<Rightarrow> Queue" where
  "stopPlayback w =
     (let w1 = w\<lparr>playbackGeneration := playbackGeneration w + 1, currentlyPlayingIndex := -1\<rparr>;
          w2 = stop_backends w1
      in setState (\<lambda>s. s\<lparr>isPlaying := False, isPaused := False, currentIndex := -1,
                          sentences := map reset_status (sentences s)\<rparr>) w2)"

definition stop :: "Queue \<Rightarrow> Queue" where
  "stop w = stopPlayback w"

text \<open>
  \<^verbatim>\<open>skipTo\<close> up to and including \<^verbatim>\<open>setState("currentIndex", index)\<close>, for an index that
  passed the bounds check; then the whole function.
\<close>

definition skipTo_select :: "int \<Rightarrow> Queue \<Rightarrow> Queue" where
  "skipTo_select index w =
     (let w1 = w\<lparr>playbackGeneration := playbackGeneration w + 1, currentlyPlayingIndex := -1\<rparr>;
          w2 = stop_backends w1;
          prevIndex = currentIndex (state w2);
          w3 = (if prevIndex \<ge> 0 \<and> prevIndex < int (length (sentences (state w2)))
                   \<and> status (sentence_at w2 prevIndex) = Playing
                then set_status prevIndex
                       (if audioBuffer (sentence_at w2 prevIndex) \<noteq> None then Ready else Pending) w2
                else w2)
      in setState (\<lambda>s. s\<lparr>currentIndex := index\<rparr>) w3)"

definition skipTo :: "int \<Rightarrow> Queue \<Rightarrow> Queue" where
  "skipTo index w =
     (if index < 0 \<or> index \<ge> int (length (sentences (state w))) then w
      else let w1 = skipTo_select index w
           in if isPlaying (state w1) \<and> \<not> isPaused (state w1)
              then playSentenceAtIndex index (Chain (playbackGeneration w1) None) w1
              else w1)"

definition skipForward :: "Queue \<Rightarrow> Queue" where
  "skipForward w =
     (let current = currentIndex (state w);
          maxIndex = int (length (sentences (state w))) - 1
      in if current < 0 then skipTo 0 w
         else if current < maxIndex then skipTo (current + 1) w
         else w)"

definition skipBack :: "Queue \<Rightarrow> Queue" where
  "skipBack w =
     (let current = currentIndex (state w)
      in if current > 0 then skipTo (current - 1) w
         else if current < 0 \<and> length (sentences (state w)) > 0 then skipTo 0 w
         else w)"

definition isReady :: "Queue \<Rightarrow> bool" where
  "isReady w \<longleftrightarrow> length (sentences (state w)) > 0 \<and> \<not> isLoading (state w)"

subsection \<open>loadText\<close>

text \<open>
  \<^verbatim>\<open>loadText\<close> up to its first \<^verbatim>\<open>await\<close>, and from the settling of
  \<^verbatim>\<open>split_text_to_sentences\<close> on (the \<^verbatim>\<open>await\<close> of \<^verbatim>\<open>clear_audio_cache\<close> in between
  touches no variable of the hook, whatever its outcome). The second part returns how the
  promise of \<^verbatim>\<open>loadText\<close> settles.
\<close>

definition loadText :: "string \<Rightarrow> Queue \<Rightarrow> Queue" where
  "loadText text w =
     (if trim_is_empty text then w
      else let w1 = stopPlayback (setState (\<lambda>s. s\<lparr>isLoading := True\<rparr>) w);
               w2 = w1\<lparr>generatingSet := [], playbackGeneration := playbackGeneration w1 + 1\<rparr>
           in add_task (LoadAwait text) (add_call ClearAudioCache w2))"

definition sentenceObject :: "nat \<Rightarrow> string \<Rightarrow> Sentence" where
  "sentenceObject i s =
     \<lparr> sentence_id = i, sentence_text = s, status = Pending, audioBlob = None,
       audioBuffer = None, audioFileUrl = None, duration = None, error = None \<rparr>"

definition loadText_resume :: "string \<Rightarrow> string + string list \<Rightarrow> Queue \<Rightarrow> settled \<times> Queue" where
  "loadText_resume text r w =
     (let w1 = add_call (SplitText text) w
      in case r of
           Inr strs \<Rightarrow>
             (Fulfilled,
              setState (\<lambda>s. s\<lparr>sentences := map2 sentenceObject [0..<length strs] strs,
                               currentIndex := -1, isPlaying := False, isPaused := False,
                               isLoading := False\<rparr>) w1)
         | Inl e \<Rightarrow> (Fulfilled, setState (\<lambda>s. s\<lparr>isLoading := False\<rparr>) w1))"

subsection \<open>Executions\<close>

text \<open>
  An event is a call of one of the hook's operations or the resumption of something that
  is pending: a suspended continuation (which must be among \<open>tasks\<close>), a tick of a live
  interval, the \<^verbatim>\<open>ended\<close> event of the audio element (which needs a handler). \<open>step\<close> is
  \<open>None\<close> for an event that cannot happen in the state.
\<close>

datatype event =
    CallLoadText string | CallPlay | CallPause | CallStop | CallSkipTo int
  | CallSkipForward | CallSkipBack
  | SplitSettled string "string + string list"
  | SynthSettled int "chain option" synth_result
  | SettledResumed int chain
  | TimerFired int chain
  | MusicPlaySettled int chain bool
  | IntervalTick nat
  | MusicStateSettled nat music_state_result
  | AudioEnded

definition take_task :: "task \<Rightarrow> Queue \<Rightarrow> Queue option" where
  "take_task t w = (if t \<in> set (tasks w) then Some (w\<lparr>tasks := remove1 t (tasks w)\<rparr>) else None)"

fun step :: "event \<Rightarrow> Queue \<Rightarrow> Queue option" where
  "step (CallLoadText text) w = Some (loadText text w)"
| "step CallPlay w = Some (play w)"
| "step CallPause w = Some (pause w)"
| "step CallStop w = Some (stop w)"
| "step (CallSkipTo index) w = Some (skipTo index w)"
| "step CallSkipForward w = Some (skipForward w)"
| "step CallSkipBack w = Some (skipBack w)"
| "step (SplitSettled text r) w =
     map_option (\<lambda>w'. snd (loadText_resume text r w')) (take_task (LoadAwait text) w)"
| "step (SynthSettled index waiter r) w =
     map_option (generateSentence_resume index waiter r) (take_task (SynthAwait index waiter) w)"
| "step (SettledResumed index c) w =
     map_option (chain_resume index c) (take_task (SettledAwait index c) w)"
| "step (TimerFired index c) w =
     map_option (chain_resume index c) (take_task (TimerAwait index c) w)"
| "step (MusicPlaySettled index c ok) w =
     map_option (musicPlay_resume index c ok) (take_task (MusicPlayAwait index c) w)"
| "step (IntervalTick h) w = (if h \<in> set (liveIntervals w) then Some (poll_tick h w) else None)"
| "step (MusicStateSettled h r) w =
     map_option (poll_resume h r) (take_task (MusicStateAwait h) w)"
| "step AudioEnded w = (if onended w = None then None else Some (audio_ended w))"

fun run :: "event list \<Rightarrow> Queue \<Rightarrow> Queue option" where
  "run [] w = Some w"
| "run (e # es) w = (case step e w of None \<Rightarrow> None | Some w' \<Rightarrow> run es w')"

subsection \<open>Observations and concrete inputs\<close>

definition statuses :: "Queue \<Rightarrow> SentenceStatus list" where
  "statuses w = map status (sentences (state w))"

definition count_playing :: "Queue \<Rightarrow> nat" where
  "count_playing w = length (filter (\<lambda>s. status s = Playing) (sentences (state w)))"

definition in_flight :: "Queue \<Rightarrow> nat" where
  "in_flight w = length (generatingSet w)"

text \<open>
  A successful synthesis of payload \<open>p\<close>: the response carries the audio, the file was
  saved, the audio decoded.
\<close>

definition synth_ok :: "int \<Rightarrow> string \<Rightarrow> synth_result" where
  "synth_ok i p =
     Responded \<lparr> resp_success = True, resp_sentence_index = i, resp_audio_base64 = Some p,
                 resp_duration = Some 2, resp_error = None \<rparr>
       (Some ''file:///cache/sentence.wav'') (Inr \<lparr> payload = p, buffer_duration = 2 \<rparr>)"

text \<open>Loading a text that the segmenter splits into the given sentences.\<close>

definition load_events :: "string list \<Rightarrow> event list" where
  "load_events strs = [CallLoadText ''text'', SplitSettled ''text'' (Inr strs)]"

text \<open>
  A queue in the middle of playback on the desktop: sentence 1 is playing, sentence 0 has
  been played and is cached, sentence 2 was marked played without audio, 3 is being
  generated, 4 is pending.
\<close>

definition example_sentence :: "nat \<Rightarrow> SentenceStatus \<Rightarrow> bool \<Rightarrow> Sentence" where
  "example_sentence i v cached =
     (sentenceObject i ''S.'')
       \<lparr> status := v,
         audioBuffer := (if cached then Some \<lparr> payload = ''UklGRg'', buffer_duration = 2 \<rparr>
                         else None) \<rparr>"

definition example_queue :: Queue where
  "example_queue =
     (usePlaybackQueue False 3)
       \<lparr> state := \<lparr> sentences = [example_sentence 0 Played True, example_sentence 1 Playing True,
                                  example_sentence 2 Played False, example_sentence 3 Generating False,
                                  example_sentence 4 Pending False],
                     currentIndex = 1, isPlaying = True, isPaused = False, isLoading = False,
                     queueAhead = 3 \<rparr>,
         generatingSet := [3], playbackGeneration := 3, currentlyPlayingIndex := 1,
         onended := Some (1, 3), tasks := [SynthAwait 3 None] \<rparr>"

definition current :: "Queue \<Rightarrow> int" where
  "current w = currentIndex (state w)"

definition cached :: "Queue \<Rightarrow> bool list" where
  "cached w = map (\<lambda>s. audioBuffer s \<noteq> None) (sentences (state w))"


section \<open>Properties\<close>

subsection \<open>What stopping the backends leaves alone\<close>

lemma stop_backends_frame [simp]:
  "state (stop_backends w) = state w"
  "generatingSet (stop_backends w) = generatingSet w"
  "playbackGeneration (stop_backends w) = playbackGeneration w"
  "currentlyPlayingIndex (stop_backends w) = currentlyPlayingIndex w"
  "tasks (stop_backends w) = tasks w"
  "isAndroid (stop_backends w) = isAndroid w"
  "pollInterval (stop_backends w) = None"
  "onended (stop_backends w) = None"
  "pollClosures (stop_backends w) = pollClosures w"
  by (simp_all add: stop_backends_def Let_def audioPlayer_stop_def clear_poll_def clearInterval_def
      add_call_def split: option.splits)

lemma stop_backends_live:
  "pollInterval w = None \<Longrightarrow> liveIntervals (stop_backends w) = liveIntervals w"
  by (simp add: stop_backends_def Let_def audioPlayer_stop_def clear_poll_def add_call_def)

lemma reset_status_idem [simp]: "reset_status (reset_status s) = reset_status s"
  by (simp add: reset_status_def)

subsection \<open>stop\<close>

text \<open>
  C4. After \<open>stop\<close>, from every state: \<open>currentIndex\<close> is \<open>-1\<close>, \<open>isPlaying\<close> and
  \<open>isPaused\<close> are false, no sentence is \<open>Playing\<close>, and every sentence is what it was
  except that a \<open>Playing\<close> or \<open>Played\<close> one has become \<open>Ready\<close> when it holds a decoded
  audio buffer and \<open>Pending\<close> when it does not.
\<close>

theorem C4_stop_resets:
  "currentIndex (state (stop w)) = -1 \<and> isPlaying (state (stop w)) = False
   \<and> isPaused (state (stop w)) = False
   \<and> length (sentences (state (stop w))) = length (sentences (state w))
   \<and> (\<forall>i < length (sentences (state w)).
         status (sentences (state (stop w)) ! i) \<noteq> Playing
       \<and> sentences (state (stop w)) ! i =
           (if status (sentences (state w) ! i) = Playing \<or> status (sentences (state w) ! i) = Played
            then (sentences (state w) ! i)
                   \<lparr>status := (if audioBuffer (sentences (state w) ! i) \<noteq> None then Ready else Pending)\<rparr>
            else sentences (state w) ! i))"
  by (simp add: stop_def stopPlayback_def Let_def setState_def reset_status_def)

theorem C4_stop_resets_witness:
  "(1::nat) < length (sentences (state example_queue))
   \<and> status (sentences (state example_queue) ! 1) = Playing
   \<and> status (sentences (state (stop example_queue)) ! 1) = Ready
   \<and> currentIndex (state (stop example_queue)) = -1
   \<and> isPlaying (state (stop example_queue)) = False
   \<and> isPaused (state (stop example_queue)) = False"
proof -
  have len: "(1::nat) < length (sentences (state example_queue))" by code_simp
  have was: "status (sentences (state example_queue) ! 1) = Playing
      \<and> audioBuffer (sentences (state example_queue) ! 1) \<noteq> None" by code_simp
  from C4_stop_resets [of example_queue] len
  have "sentences (state (stop example_queue)) ! 1 =
          (if status (sentences (state example_queue) ! 1) = Playing
              \<or> status (sentences (state example_queue) ! 1) = Played
           then (sentences (state example_queue) ! 1)
                  \<lparr>status := (if audioBuffer (sentences (state example_queue) ! 1) \<noteq> None
                              then Ready else Pending)\<rparr>
           else sentences (state example_queue) ! 1)"
    by blast
  with was have "status (sentences (state (stop example_queue)) ! 1) = Ready" by simp
  with len was C4_stop_resets [of example_queue] show ?thesis by simp
qed

text \<open>
  C9. A second \<open>stop\<close> right after a first one leaves the PlaybackState as the first one
  left it, together with every other variable of the hook except the generation counter,
  which it increments once more. \<open>stop\<close> has no failing branch.
\<close>

theorem C9_stop_twice:
  "state (stop (stop w)) = state (stop w)
   \<and> generatingSet (stop (stop w)) = generatingSet (stop w)
   \<and> currentlyPlayingIndex (stop (stop w)) = currentlyPlayingIndex (stop w)
   \<and> pollInterval (stop (stop w)) = pollInterval (stop w)
   \<and> liveIntervals (stop (stop w)) = liveIntervals (stop w)
   \<and> onended (stop (stop w)) = onended (stop w)
   \<and> tasks (stop (stop w)) = tasks (stop w)
   \<and> playbackGeneration (stop (stop w)) = playbackGeneration (stop w) + 1"
  by (simp add: stop_def stopPlayback_def Let_def setState_def stop_backends_live)

theorem C9_stop_twice_witness:
  "state (stop (stop example_queue)) = state (stop example_queue)
   \<and> statuses (stop (stop example_queue)) = [Ready, Ready, Pending, Generating, Pending]
   \<and> playbackGeneration (stop example_queue) = 4
   \<and> playbackGeneration (stop (stop example_queue)) = 5"
  using C9_stop_twice [of example_queue]
  by code_simp

subsection \<open>The generation counter only moves in the four operations\<close>

lemma gen_generateSentence [simp]:
  "playbackGeneration (generateSentence i wt w) = playbackGeneration w"
  by (simp add: generateSentence_def already_settled_def add_task_def add_call_def set_status_def
      update_sentence_def setState_def split: option.splits)

lemma gen_pregen_loop [simp]: "playbackGeneration (pregen_loop i e w) = playbackGeneration w"
  by (induction i e w rule: pregen_loop.induct) (simp add: pregen_loop.simps pregen_body_def)

lemma gen_triggerPreGeneration [simp]:
  "playbackGeneration (triggerPreGeneration i w) = playbackGeneration w"
  by (simp add: triggerPreGeneration_def)

lemma gen_chain_settled [simp]: "playbackGeneration (chain_settled c w) = playbackGeneration w"
  by (simp add: chain_settled_def set_isAdvancing_def split: option.splits)

lemma gen_playWithHtml5Audio [simp]:
  "playbackGeneration (playWithHtml5Audio i g w) = playbackGeneration w"
  by (simp add: playWithHtml5Audio_def add_call_def split: option.splits)

lemma gen_start_sentence [simp]:
  "playbackGeneration (start_sentence i c w) = playbackGeneration w"
  by (simp add: start_sentence_def Let_def add_task_def add_call_def set_status_def
      update_sentence_def setState_def)

lemma gen_playSentenceAtIndex [simp]:
  "playbackGeneration (playSentenceAtIndex i c w) = playbackGeneration w"
proof (induction i c w rule: playSentenceAtIndex.induct)
  case (1 index c w)
  show ?case
    by (subst playSentenceAtIndex.simps) (use 1 in \<open>simp add: add_task_def setState_def\<close>)
qed

lemma gen_chain_resume [simp]: "playbackGeneration (chain_resume i c w) = playbackGeneration w"
  by (simp add: chain_resume_def)

lemma gen_generateSentence_write [simp]:
  "playbackGeneration (generateSentence_write i r w) = playbackGeneration w"
  by (simp add: generateSentence_write_def store_ready_def store_error_def update_sentence_def
      setState_def Let_def split: synth_result.splits sum.splits)

lemma gen_generateSentence_resume [simp]:
  "playbackGeneration (generateSentence_resume i wt r w) = playbackGeneration w"
  by (simp add: generateSentence_resume_def Let_def split: option.splits)

lemma gen_startMusicStatePolling [simp]:
  "playbackGeneration (startMusicStatePolling g w) = playbackGeneration w"
  by (simp add: startMusicStatePolling_def Let_def clear_poll_def clearInterval_def
      split: option.splits)

lemma gen_musicPlay_resume [simp]:
  "playbackGeneration (musicPlay_resume i c ok w) = playbackGeneration w"
  by (simp add: musicPlay_resume_def)

lemma gen_audio_ended [simp]: "playbackGeneration (audio_ended w) = playbackGeneration w"
  by (simp add: audio_ended_def Let_def set_status_def update_sentence_def setState_def
      split: option.splits prod.splits)

lemma gen_poll_tick [simp]: "playbackGeneration (poll_tick h w) = playbackGeneration w"
  by (simp add: poll_tick_def clear_poll_def clearInterval_def add_task_def add_call_def
      split: option.splits)

lemma gen_poll_advance [simp]: "playbackGeneration (poll_advance h now w) = playbackGeneration w"
  by (simp add: poll_advance_def Let_def set_isAdvancing_def set_status_def update_sentence_def
      setState_def clear_poll_def clearInterval_def split: option.splits)

lemma gen_poll_resume [simp]: "playbackGeneration (poll_resume h r w) = playbackGeneration w"
  by (simp add: poll_resume_def set_isAdvancing_def split: music_state_result.splits)

lemma gen_loadText_resume [simp]:
  "playbackGeneration (snd (loadText_resume t r w)) = playbackGeneration w"
  by (simp add: loadText_resume_def Let_def add_call_def setState_def split: sum.splits)

lemma gen_stopPlayback: "playbackGeneration (stopPlayback w) = playbackGeneration w + 1"
  by (simp add: stopPlayback_def Let_def setState_def)

lemma gen_stop: "playbackGeneration (stop w) = playbackGeneration w + 1"
  by (simp add: stop_def gen_stopPlayback)

lemma gen_play:
  "playbackGeneration (play w) =
     (if sentences (state w) = [] \<or> isPaused (state w) then playbackGeneration w
      else playbackGeneration w + 1)"
  by (simp add: play_def Let_def setState_def add_call_def)

lemma gen_pause [simp]: "playbackGeneration (pause w) = playbackGeneration w"
  by (simp add: pause_def Let_def setState_def add_call_def clear_poll_def clearInterval_def
      split: option.splits)

lemma gen_skipTo_select: "playbackGeneration (skipTo_select i w) = playbackGeneration w + 1"
  by (simp add: skipTo_select_def Let_def setState_def set_status_def update_sentence_def)

lemma gen_skipTo:
  "playbackGeneration (skipTo i w) =
     (if 0 \<le> i \<and> i < int (length (sentences (state w))) then playbackGeneration w + 1
      else playbackGeneration w)"
  by (auto simp add: skipTo_def Let_def gen_skipTo_select)

lemma gen_loadText:
  "playbackGeneration (loadText t w) =
     (if trim_is_empty t then playbackGeneration w else playbackGeneration w + 2)"
  by (simp add: loadText_def Let_def add_task_def add_call_def gen_stopPlayback setState_def)

lemma gen_skipForward: "playbackGeneration w \<le> playbackGeneration (skipForward w)"
  by (simp add: skipForward_def Let_def gen_skipTo)

lemma gen_skipBack: "playbackGeneration w \<le> playbackGeneration (skipBack w)"
  by (simp add: skipBack_def Let_def gen_skipTo)

lemma gen_take_task: "take_task t w = Some w' \<Longrightarrow> playbackGeneration w' = playbackGeneration w"
  by (auto simp: take_task_def split: if_splits)

lemma step_generation_mono:
  "step e w = Some w' \<Longrightarrow> playbackGeneration w \<le> playbackGeneration w'"
  by (cases e) (auto simp: gen_stop gen_play gen_skipTo gen_loadText gen_skipForward gen_skipBack
      dest!: gen_take_task split: if_splits)

lemma run_generation_mono:
  "run es w = Some w' \<Longrightarrow> playbackGeneration w \<le> playbackGeneration w'"
proof (induction es arbitrary: w)
  case Nil
  then show ?case by simp
next
  case (Cons e es)
  then obtain w1 where s: "step e w = Some w1" and r: "run es w1 = Some w'"
    by (auto split: option.splits)
  from step_generation_mono[OF s] Cons.IH[OF r] show ?case by simp
qed

text \<open>
  C2 (as amended). \<open>stop\<close> always increments the generation counter. \<open>play\<close> increments
  it exactly when there are sentences and the queue is not paused; \<open>skipTo\<close> exactly when
  the index is in bounds; \<open>loadText\<close> (by two: \<open>stopPlayback\<close>, then its own increment)
  exactly when the text is not blank. In the other cases the counter is left as it was.
  No execution ever decreases it.
\<close>

theorem C2_token_increments:
  "playbackGeneration (stop w) = playbackGeneration w + 1
   \<and> playbackGeneration (play w) =
       (if sentences (state w) = [] \<or> isPaused (state w) then playbackGeneration w
        else playbackGeneration w + 1)
   \<and> playbackGeneration (skipTo index w) =
       (if 0 \<le> index \<and> index < int (length (sentences (state w))) then playbackGeneration w + 1
        else playbackGeneration w)
   \<and> playbackGeneration (loadText text w) =
       (if trim_is_empty text then playbackGeneration w else playbackGeneration w + 2)
   \<and> (\<forall>es w'. run es w = Some w' \<longrightarrow> playbackGeneration w \<le> playbackGeneration w')"
  using gen_stop gen_play gen_skipTo gen_loadText run_generation_mono by simp

theorem C2_token_increments_witness:
  "playbackGeneration example_queue = 3
   \<and> playbackGeneration (stop example_queue) = 4
   \<and> playbackGeneration (play example_queue) = 4
   \<and> playbackGeneration (skipTo 2 example_queue) = 4
   \<and> playbackGeneration (skipTo 5 example_queue) = 3
   \<and> playbackGeneration (loadText ''Next text.'' example_queue) = 5
   \<and> playbackGeneration (loadText ''   '' example_queue) = 3
   \<and> run [CallPause, CallSkipTo 0] example_queue = Some (skipTo 0 (pause example_queue))
   \<and> playbackGeneration (skipTo 0 (pause example_queue)) = 4"
proof -
  have r: "run [CallPause, CallSkipTo 0] example_queue = Some (skipTo 0 (pause example_queue))"
    by simp
  have e: "playbackGeneration example_queue = 3
      \<and> sentences (state example_queue) \<noteq> [] \<and> isPaused (state example_queue) = False
      \<and> (0 \<le> (2::int) \<and> (2::int) < int (length (sentences (state example_queue))))
      \<and> \<not> (0 \<le> (5::int) \<and> (5::int) < int (length (sentences (state example_queue))))
      \<and> trim_is_empty ''Next text.'' = False \<and> trim_is_empty ''   '' = True
      \<and> playbackGeneration (skipTo 0 (pause example_queue)) = 4"
    by code_simp
  from C2_token_increments [of example_queue 2 "''Next text.''"]
    C2_token_increments [of example_queue 5 "''   ''"] r e
  show ?thesis by simp
qed

text \<open>
  The claim as stated fails: \<open>play\<close> on an empty queue, \<open>play\<close> while paused and an
  out-of-range \<open>skipTo\<close> leave the counter where it was.
\<close>

theorem C2_counterexample:
  "playbackGeneration (play (usePlaybackQueue False 3)) = playbackGeneration (usePlaybackQueue False 3)
   \<and> map_option playbackGeneration (run (load_events [''A.'', ''B.''] @ [CallPlay, CallPause])
        (usePlaybackQueue False 3)) = Some 3
   \<and> map_option playbackGeneration (run (load_events [''A.'', ''B.''] @ [CallPlay, CallPause, CallPlay])
        (usePlaybackQueue False 3)) = Some 3
   \<and> map_option playbackGeneration (run (load_events [''A.'', ''B.''] @ [CallPlay, CallPause, CallSkipTo 2])
        (usePlaybackQueue False 3)) = Some 3"
  by code_simp

subsection \<open>pause, then play\<close>

text \<open>
  C10. \<open>pause\<close> sets \<open>isPaused\<close> in every state, stopped ones included. A \<open>play\<close> that
  follows it on a non-empty queue clears \<open>isPaused\<close> and calls the backend's resume and
  nothing else (on Android it also restarts the polling interval): the generation counter,
  the sentences, the index, the in-flight set, the pending continuations and the audio
  handler are what they were before the \<open>pause\<close>, so no sentence becomes \<open>Playing\<close>.
\<close>

theorem C10_pause_then_play:
  "isPaused (state (pause w)) = True
   \<and> (if sentences (state w) = [] then play (pause w) = pause w
       else isPaused (state (play (pause w))) = False
          \<and> playbackGeneration (play (pause w)) = playbackGeneration w
          \<and> sentences (state (play (pause w))) = sentences (state w)
          \<and> isPlaying (state (play (pause w))) = isPlaying (state w)
          \<and> currentIndex (state (play (pause w))) = currentIndex (state w)
          \<and> currentlyPlayingIndex (play (pause w)) = currentlyPlayingIndex w
          \<and> generatingSet (play (pause w)) = generatingSet w
          \<and> tasks (play (pause w)) = tasks w
          \<and> onended (play (pause w)) = onended w
          \<and> calls (play (pause w)) =
               calls (pause w) @ (if isAndroid w then [MusicResume] else [AudioResume])
          \<and> pollInterval (play (pause w)) =
               (if isAndroid w then Some (length (pollClosures w)) else pollInterval w))"
  by (simp add: play_def pause_def Let_def setState_def add_call_def clear_poll_def
      clearInterval_def startMusicStatePolling_def split: option.splits)

theorem C10_pause_then_play_witness:
  "isPlaying (state (stop example_queue)) = False
   \<and> sentences (state (stop example_queue)) \<noteq> []
   \<and> isPaused (state (pause (stop example_queue))) = True
   \<and> isPaused (state (play (pause (stop example_queue)))) = False
   \<and> playbackGeneration (play (pause (stop example_queue))) = playbackGeneration (stop example_queue)
   \<and> count_playing (play (pause (stop example_queue))) = 0
   \<and> tasks (play (pause (stop example_queue))) = tasks (stop example_queue)
   \<and> calls (play (pause (stop example_queue))) = calls (stop example_queue) @ [AudioPause, AudioResume]"
  using C10_pause_then_play [of "stop example_queue"]
  by code_simp

subsection \<open>The pre-generation loop\<close>

lemma generateSentence_needed:
  "needs_generation k w \<Longrightarrow> generateSentence k None w =
     add_task (SynthAwait k None) (add_call (Synthesize k) (set_status k Generating
        (w\<lparr>generatingSet := generatingSet w @ [k]\<rparr>)))"
  by (simp add: generateSentence_def needs_generation_def in_range_def set_add_def)

lemmas pregen_body_unfold = pregen_body_def generateSentence_needed add_task_def add_call_def
  set_status_def update_sentence_def setState_def

lemma body_length [simp]:
  "length (sentences (state (pregen_body k w))) = length (sentences (state w))"
  by (simp add: pregen_body_unfold)

lemma body_queueAhead [simp]: "queueAhead (state (pregen_body k w)) = queueAhead (state w)"
  by (simp add: pregen_body_unfold)

lemma body_settles: "\<not> needs_generation j w \<or> j = k \<Longrightarrow> \<not> needs_generation j (pregen_body k w)"
  by (auto simp add: pregen_body_unfold needs_generation_def in_range_def sentence_at_def
      nth_list_update split: if_splits)

lemma loop_length [simp]:
  "length (sentences (state (pregen_loop i e w))) = length (sentences (state w))"
  by (induction i e w rule: pregen_loop.induct) (simp add: pregen_loop.simps)

lemma loop_queueAhead [simp]: "queueAhead (state (pregen_loop i e w)) = queueAhead (state w)"
  by (induction i e w rule: pregen_loop.induct) (simp add: pregen_loop.simps)

lemma loop_noop: "(\<And>j. i \<le> j \<Longrightarrow> j < e \<Longrightarrow> \<not> needs_generation j w) \<Longrightarrow> pregen_loop i e w = w"
proof (induction i e w rule: pregen_loop.induct)
  case (1 i e w)
  show ?case
  proof (cases "i < e")
    case True
    have b: "pregen_body i w = w" using 1(2)[of i] True by (simp add: pregen_body_def)
    have "pregen_loop (i + 1) e w = w" using 1(1)[OF True] 1(2) b by simp
    then show ?thesis using True b by (simp add: pregen_loop.simps[of i e w])
  next
    case False
    then show ?thesis by (simp add: pregen_loop.simps[of i e w])
  qed
qed

lemma loop_settles:
  "\<not> needs_generation j w \<or> (i \<le> j \<and> j < e) \<Longrightarrow> \<not> needs_generation j (pregen_loop i e w)"
proof (induction i e w rule: pregen_loop.induct)
  case (1 i e w)
  show ?case
  proof (cases "i < e")
    case True
    have "\<not> needs_generation j (pregen_body i w) \<or> (i + 1 \<le> j \<and> j < e)"
    proof (cases "\<not> needs_generation j w \<or> j = i")
      case True
      then show ?thesis by (simp add: body_settles)
    next
      case False
      with 1(2) show ?thesis by auto
    qed
    from 1(1)[OF True this] show ?thesis using True by (simp add: pregen_loop.simps[of i e w])
  next
    case False
    then show ?thesis using 1(2) by (auto simp add: pregen_loop.simps[of i e w])
  qed
qed

lemma trigger_idem: "triggerPreGeneration i (triggerPreGeneration i w) = triggerPreGeneration i w"
  unfolding triggerPreGeneration_def
  by (simp, rule loop_noop, rule loop_settles, simp)

lemma body_keeps_member:
  "j \<in> set (generatingSet w) \<Longrightarrow> j \<in> set (generatingSet (pregen_body k w))"
  by (simp add: pregen_body_unfold)

lemma body_keeps_status:
  "in_range j w \<Longrightarrow> status (sentence_at w j) \<noteq> Pending \<Longrightarrow>
   status (sentence_at (pregen_body k w) j) = status (sentence_at w j)"
  by (auto simp add: pregen_body_unfold needs_generation_def in_range_def sentence_at_def
      nth_list_update)

lemma body_in_range [simp]: "in_range j (pregen_body k w) = in_range j w"
  by (simp add: in_range_def)

lemma loop_in_range [simp]: "in_range j (pregen_loop i e w) = in_range j w"
  by (simp add: in_range_def)

lemma loop_keeps_member:
  "j \<in> set (generatingSet w) \<Longrightarrow> j \<in> set (generatingSet (pregen_loop i e w))"
  by (induction i e w rule: pregen_loop.induct)
     (simp add: pregen_loop.simps body_keeps_member)

lemma loop_keeps_status:
  "in_range j w \<Longrightarrow> status (sentence_at w j) \<noteq> Pending \<Longrightarrow>
   status (sentence_at (pregen_loop i e w) j) = status (sentence_at w j)"
proof (induction i e w rule: pregen_loop.induct)
  case (1 i e w)
  show ?case
  proof (cases "i < e")
    case True
    have "status (sentence_at (pregen_body i w) j) = status (sentence_at w j)"
      using 1(2,3) by (rule body_keeps_status)
    moreover have "status (sentence_at (pregen_loop (i + 1) e (pregen_body i w)) j)
        = status (sentence_at (pregen_body i w) j)"
      using 1(1)[OF True] 1(2,3) calculation by simp
    ultimately show ?thesis using True by (simp add: pregen_loop.simps[of i e w])
  next
    case False
    then show ?thesis by (simp add: pregen_loop.simps[of i e w])
  qed
qed

lemma body_marks:
  "needs_generation k w \<Longrightarrow> k \<in> set (generatingSet (pregen_body k w))
      \<and> status (sentence_at (pregen_body k w) k) = Generating"
  by (auto simp add: pregen_body_unfold needs_generation_def in_range_def sentence_at_def)

lemma body_other_needs:
  "needs_generation j w \<Longrightarrow> j \<noteq> k \<Longrightarrow> needs_generation j (pregen_body k w)"
  by (auto simp add: pregen_body_unfold needs_generation_def in_range_def sentence_at_def
      nth_list_update)

lemma loop_marks:
  "needs_generation j w \<Longrightarrow> i \<le> j \<Longrightarrow> j < e \<Longrightarrow>
     j \<in> set (generatingSet (pregen_loop i e w))
     \<and> status (sentence_at (pregen_loop i e w) j) = Generating"
proof (induction i e w rule: pregen_loop.induct)
  case (1 i e w)
  have lt: "i < e" using 1(3,4) by simp
  show ?case
  proof (cases "i = j")
    case True
    have m: "j \<in> set (generatingSet (pregen_body j w))"
      and s: "status (sentence_at (pregen_body j w) j) = Generating"
      using body_marks[OF 1(2)] by simp_all
    have r: "in_range j (pregen_body j w)" using 1(2) by (simp add: needs_generation_def)
    have "status (sentence_at (pregen_loop (j + 1) e (pregen_body j w)) j) = Generating"
      using loop_keeps_status[OF r, of "j + 1" e] s by simp
    then show ?thesis using True lt loop_keeps_member[OF m, of "j + 1" e]
      by (simp add: pregen_loop.simps[of j e w])
  next
    case False
    have "needs_generation j (pregen_body i w)" using body_other_needs[OF 1(2)] False by simp
    from 1(1)[OF lt this] False 1(3,4) show ?thesis using lt
      by (simp add: pregen_loop.simps[of i e w])
  qed
qed

lemma trigger_marks:
  assumes "fromIndex \<le> j" and "j < fromIndex + queueAhead (state w) + 1" and "in_range j w"
    and "status (sentence_at w j) = Pending"
  shows "j \<in> set (generatingSet (triggerPreGeneration fromIndex w))"
    and "j \<notin> set (generatingSet w) \<Longrightarrow>
           status (sentence_at (triggerPreGeneration fromIndex w) j) = Generating"
proof -
  let ?e = "min (fromIndex + queueAhead (state w) + 1) (int (length (sentences (state w))))"
  have lt: "j < ?e" using assms(2,3) by (simp add: in_range_def)
  show "j \<in> set (generatingSet (triggerPreGeneration fromIndex w))"
  proof (cases "j \<in> set (generatingSet w)")
    case True
    then show ?thesis unfolding triggerPreGeneration_def by (rule loop_keeps_member)
  next
    case False
    then have "needs_generation j w" using assms(3,4) by (simp add: needs_generation_def)
    from loop_marks[OF this assms(1) lt] show ?thesis by (simp add: triggerPreGeneration_def)
  qed
  show "status (sentence_at (triggerPreGeneration fromIndex w) j) = Generating"
    if "j \<notin> set (generatingSet w)"
  proof -
    have "needs_generation j w" using that assms(3,4) by (simp add: needs_generation_def)
    from loop_marks[OF this assms(1) lt] show ?thesis by (simp add: triggerPreGeneration_def)
  qed
qed

lemma body_size: "length (generatingSet (pregen_body k w)) \<le> length (generatingSet w) + 1"
  by (simp add: pregen_body_unfold)

lemma loop_size: "length (generatingSet (pregen_loop i e w)) \<le> length (generatingSet w) + nat (e - i)"
proof (induction i e w rule: pregen_loop.induct)
  case (1 i e w)
  show ?case
  proof (cases "i < e")
    case True
    have "length (generatingSet (pregen_loop (i + 1) e (pregen_body i w)))
          \<le> length (generatingSet (pregen_body i w)) + nat (e - (i + 1))"
      by (rule 1[OF True])
    also have "\<dots> \<le> length (generatingSet w) + 1 + nat (e - (i + 1))"
      using body_size[of i w] by simp
    also have "\<dots> = length (generatingSet w) + nat (e - i)" using True by simp
    finally show ?thesis using True by (simp add: pregen_loop.simps[of i e w])
  next
    case False
    then show ?thesis by (simp add: pregen_loop.simps[of i e w])
  qed
qed

lemma trigger_size:
  "length (generatingSet (triggerPreGeneration i w))
     \<le> length (generatingSet w) + nat (queueAhead (state w) + 1)"
proof -
  have "nat (min (i + queueAhead (state w) + 1) (int (length (sentences (state w)))) - i)
        \<le> nat (queueAhead (state w) + 1)" by simp
  then show ?thesis
    unfolding triggerPreGeneration_def
    using loop_size[of i "min (i + queueAhead (state w) + 1) (int (length (sentences (state w))))" w]
    by linarith
qed

lemma generateSentence_size:
  "length (generatingSet (generateSentence j wt w)) \<le> length (generatingSet w) + 1"
  by (simp add: generateSentence_def already_settled_def add_task_def add_call_def set_status_def
      update_sentence_def setState_def set_add_def split: option.splits)

lemma body_skips_in_flight:
  "sentence_at (pregen_body k w) j = sentence_at w j"
  if "j \<in> set (generatingSet w)" and "in_range j w"
proof (cases "k = j")
  case True
  then show ?thesis using that by (simp add: pregen_body_def needs_generation_def)
next
  case False
  then have "needs_generation k w \<Longrightarrow> nat k \<noteq> nat j"
    using that by (auto simp add: needs_generation_def in_range_def)
  then show ?thesis
    by (auto simp add: pregen_body_unfold sentence_at_def nth_list_update)
qed

lemma loop_skips_in_flight:
  "j \<in> set (generatingSet w) \<Longrightarrow> in_range j w \<Longrightarrow>
   sentence_at (pregen_loop i e w) j = sentence_at w j"
proof (induction i e w rule: pregen_loop.induct)
  case (1 i e w)
  show ?case
  proof (cases "i < e")
    case True
    have m: "j \<in> set (generatingSet (pregen_body i w))"
      using 1(2) by (rule body_keeps_member)
    have r: "in_range j (pregen_body i w)" using 1(3) by simp
    have "sentence_at (pregen_loop (i + 1) e (pregen_body i w)) j = sentence_at (pregen_body i w) j"
      by (rule 1(1)[OF True m r])
    also have "\<dots> = sentence_at w j" using 1(2,3) by (rule body_skips_in_flight)
    finally show ?thesis using True by (simp add: pregen_loop.simps[of i e w])
  next
    case False
    then show ?thesis by (simp add: pregen_loop.simps[of i e w])
  qed
qed

lemma trigger_skips_in_flight:
  "j \<in> set (generatingSet w) \<Longrightarrow> in_range j w \<Longrightarrow>
   sentence_at (triggerPreGeneration i w) j = sentence_at w j"
  by (simp add: triggerPreGeneration_def loop_skips_in_flight)

text \<open>
  C6 (as amended). A second \<open>triggerPreGeneration i\<close> right after a first one changes
  nothing: it issues no synthesis request and suspends no continuation. The first call has
  left every sentence of the window \<open>[i, i + queueAhead]\<close> (clamped to the sequence) that
  was \<open>Pending\<close> in the in-flight set: one that was not in the set has been marked
  \<open>Generating\<close>, one that was in the set already has been skipped and is still
  \<open>Pending\<close>.
\<close>

theorem C6_lookahead_idempotent:
  "triggerPreGeneration i (triggerPreGeneration i w) = triggerPreGeneration i w
   \<and> calls (triggerPreGeneration i (triggerPreGeneration i w)) = calls (triggerPreGeneration i w)
   \<and> tasks (triggerPreGeneration i (triggerPreGeneration i w)) = tasks (triggerPreGeneration i w)
   \<and> (\<forall>j. i \<le> j \<and> j < i + queueAhead (state w) + 1 \<and> in_range j w
            \<and> status (sentence_at w j) = Pending \<longrightarrow>
          j \<in> set (generatingSet (triggerPreGeneration i w))
          \<and> status (sentence_at (triggerPreGeneration i w) j) =
              (if j \<in> set (generatingSet w) then Pending else Generating))"
  using trigger_idem [of i w] trigger_marks [of i _ w] trigger_skips_in_flight [of _ w i]
  by auto

theorem C6_lookahead_idempotent_witness:
  "calls (triggerPreGeneration 1 example_queue) = [Synthesize 4]
   \<and> calls (triggerPreGeneration 1 (triggerPreGeneration 1 example_queue)) = [Synthesize 4]
   \<and> status (sentence_at example_queue 4) = Pending
   \<and> 4 \<notin> set (generatingSet example_queue)
   \<and> status (sentence_at (triggerPreGeneration 1 example_queue) 4) = Generating
   \<and> 4 \<in> set (generatingSet (triggerPreGeneration 1 example_queue))"
proof -
  have pre: "(1::int) \<le> 4 \<and> (4::int) < 1 + queueAhead (state example_queue) + 1
      \<and> in_range 4 example_queue \<and> status (sentence_at example_queue 4) = Pending
      \<and> 4 \<notin> set (generatingSet example_queue)"
    by code_simp
  have c: "calls (triggerPreGeneration 1 example_queue) = [Synthesize 4]" by code_simp
  from C6_lookahead_idempotent [of 1 example_queue] pre c show ?thesis by auto
qed

text \<open>
  The claim as stated fails: on Android the poll advance marks sentence 0 \<open>Played\<close> while
  its generation is in flight and \<open>stop\<close> resets it to \<open>Pending\<close>; it is still in the
  in-flight set, and \<open>triggerPreGeneration 0\<close> leaves it \<open>Pending\<close>.
\<close>

theorem C6_counterexample:
  "map_option statuses
     (run (load_events [''A.'', ''B.'']
           @ [CallPlay, CallPause, CallPlay, IntervalTick 0,
              MusicStateSettled 0 (MusicState False 1700000000000), CallStop])
        (usePlaybackQueue True 3)) = Some [Pending, Generating]
   \<and> map_option generatingSet
     (run (load_events [''A.'', ''B.'']
           @ [CallPlay, CallPause, CallPlay, IntervalTick 0,
              MusicStateSettled 0 (MusicState False 1700000000000), CallStop])
        (usePlaybackQueue True 3)) = Some [0, 1]
   \<and> map_option (statuses \<circ> triggerPreGeneration 0)
     (run (load_events [''A.'', ''B.'']
           @ [CallPlay, CallPause, CallPlay, IntervalTick 0,
              MusicStateSettled 0 (MusicState False 1700000000000), CallStop])
        (usePlaybackQueue True 3)) = Some [Pending, Generating]"
  by code_simp

text \<open>
  C7 (as amended). One \<open>triggerPreGeneration\<close> adds at most \<open>queueAhead + 1\<close> indices to
  the in-flight set, and one \<open>generateSentence\<close> at most one. Nothing bounds the set
  across calls.
\<close>

theorem C7_lookahead_adds_bounded:
  "length (generatingSet (triggerPreGeneration i w))
     \<le> length (generatingSet w) + nat (queueAhead (state w) + 1)
   \<and> length (generatingSet (generateSentence j waiter w)) \<le> length (generatingSet w) + 1"
  using trigger_size generateSentence_size by simp

theorem C7_lookahead_adds_bounded_witness:
  "in_flight example_queue = 1 \<and> queueAhead (state example_queue) = 3
   \<and> in_flight (triggerPreGeneration 1 example_queue) = 2
   \<and> in_flight (triggerPreGeneration 1 example_queue) \<le> in_flight example_queue + 4"
  using C7_lookahead_adds_bounded [of 1 example_queue 0 None]
  by code_simp

text \<open>
  The claim as stated fails: with the default look-ahead of 3, \<open>play\<close> followed by four
  \<open>skipTo\<close> calls, each to a sentence still pending, leaves five generations in flight.
\<close>

theorem C7_counterexample:
  "map_option in_flight
     (run (load_events [''A.'', ''B.'', ''C.'', ''D.'', ''E.'']
           @ [CallPlay, CallSkipTo 1, CallSkipTo 2, CallSkipTo 3, CallSkipTo 4])
        (usePlaybackQueue False 3)) = Some 5
   \<and> queueAhead (state (usePlaybackQueue False 3)) + 1 = 4"
  by code_simp

subsection \<open>skipTo\<close>


lemma skipTo_select_sentences:
  "sentences (state (skipTo_select index w)) =
     (if 0 \<le> currentIndex (state w) \<and> currentIndex (state w) < int (length (sentences (state w)))
         \<and> status (sentences (state w) ! nat (currentIndex (state w))) = Playing
      then (sentences (state w))
             [nat (currentIndex (state w)) :=
                (sentences (state w) ! nat (currentIndex (state w)))
                  \<lparr>status := (if audioBuffer (sentences (state w) ! nat (currentIndex (state w))) \<noteq> None
                              then Ready else Pending)\<rparr>]
      else sentences (state w))"
  by (simp add: skipTo_select_def Let_def setState_def set_status_def update_sentence_def
      sentence_at_def)

lemma skipTo_select_nth:
  assumes "j < length (sentences (state w))"
  shows "sentences (state (skipTo_select index w)) ! j =
           (if currentIndex (state w) = int j \<and> status (sentences (state w) ! j) = Playing
            then (sentences (state w) ! j)
                   \<lparr>status := (if audioBuffer (sentences (state w) ! j) \<noteq> None
                               then Ready else Pending)\<rparr>
            else sentences (state w) ! j)"
proof (cases "currentIndex (state w) = int j")
  case True
  then show ?thesis using assms by (simp add: skipTo_select_sentences)
next
  case False
  then have "nat (currentIndex (state w)) \<noteq> j \<or> currentIndex (state w) < 0" by linarith
  then show ?thesis using False by (auto simp add: skipTo_select_sentences)
qed

lemma skipTo_select_index [simp]: "currentIndex (state (skipTo_select index w)) = index"
  by (simp add: skipTo_select_def Let_def setState_def)

lemma skipTo_select_flags [simp]:
  "isPlaying (state (skipTo_select index w)) = isPlaying (state w)"
  "isPaused (state (skipTo_select index w)) = isPaused (state w)"
  by (simp_all add: skipTo_select_def Let_def setState_def set_status_def update_sentence_def)

text \<open>
  C5 (as amended). An out-of-range \<open>skipTo\<close> changes nothing. An in-range one first
  selects the index: the sentence at the previous \<open>currentIndex\<close> is reset when its
  status is \<open>Playing\<close> (to \<open>Ready\<close> with a decoded audio buffer, to \<open>Pending\<close> without),
  every other sentence, a \<open>Played\<close> one at the previous index included, is left as it is,
  and \<open>currentIndex\<close> becomes the index. Then, when playing and not paused, it enters
  \<open>playSentenceAtIndex\<close> with the new generation.
\<close>

theorem C5_skipTo:
  "(if 0 \<le> index \<and> index < int (length (sentences (state w)))
    then skipTo index w =
           (if isPlaying (state w) \<and> \<not> isPaused (state w)
            then playSentenceAtIndex index (Chain (playbackGeneration w + 1) None)
                   (skipTo_select index w)
            else skipTo_select index w)
       \<and> currentIndex (state (skipTo_select index w)) = index
       \<and> length (sentences (state (skipTo_select index w))) = length (sentences (state w))
       \<and> (\<forall>j < length (sentences (state w)).
             sentences (state (skipTo_select index w)) ! j =
               (if currentIndex (state w) = int j \<and> status (sentences (state w) ! j) = Playing
                then (sentences (state w) ! j)
                       \<lparr>status := (if audioBuffer (sentences (state w) ! j) \<noteq> None
                                   then Ready else Pending)\<rparr>
                else sentences (state w) ! j))
    else skipTo index w = w)"
proof (cases "0 \<le> index \<and> index < int (length (sentences (state w)))")
  case True
  show ?thesis
    unfolding if_P[OF True]
  proof (intro conjI)
    show "skipTo index w =
           (if isPlaying (state w) \<and> \<not> isPaused (state w)
            then playSentenceAtIndex index (Chain (playbackGeneration w + 1) None)
                   (skipTo_select index w)
            else skipTo_select index w)"
      using True by (simp add: skipTo_def Let_def gen_skipTo_select)
    show "currentIndex (state (skipTo_select index w)) = index" by simp
    show "length (sentences (state (skipTo_select index w))) = length (sentences (state w))"
      by (simp add: skipTo_select_sentences)
    show "\<forall>j < length (sentences (state w)).
             sentences (state (skipTo_select index w)) ! j =
               (if currentIndex (state w) = int j \<and> status (sentences (state w) ! j) = Playing
                then (sentences (state w) ! j)
                       \<lparr>status := (if audioBuffer (sentences (state w) ! j) \<noteq> None
                                   then Ready else Pending)\<rparr>
                else sentences (state w) ! j)"
      using skipTo_select_nth by blast
  qed
next
  case False
  then show ?thesis by (auto simp add: skipTo_def)
qed

theorem C5_skipTo_witness:
  "current example_queue = 1
   \<and> status (sentences (state example_queue) ! 1) = Playing
   \<and> status (sentences (state example_queue) ! 0) = Played
   \<and> status (sentences (state (skipTo_select 3 example_queue)) ! 1) = Ready
   \<and> status (sentences (state (skipTo_select 3 example_queue)) ! 0) = Played
   \<and> current (skipTo_select 3 example_queue) = 3
   \<and> skipTo 7 example_queue = example_queue"
proof -
  have pre: "(0::int) \<le> 3 \<and> (3::int) < int (length (sentences (state example_queue)))
      \<and> (0::nat) < length (sentences (state example_queue))
      \<and> (1::nat) < length (sentences (state example_queue))
      \<and> currentIndex (state example_queue) = int 1
      \<and> currentIndex (state example_queue) \<noteq> int 0
      \<and> status (sentences (state example_queue) ! 1) = Playing
      \<and> status (sentences (state example_queue) ! 0) = Played
      \<and> audioBuffer (sentences (state example_queue) ! 1) \<noteq> None"
    by code_simp
  have out: "\<not> (0 \<le> (7::int) \<and> (7::int) < int (length (sentences (state example_queue))))"
    by code_simp
  from C5_skipTo [of 3 example_queue] pre
  have sel: "currentIndex (state (skipTo_select 3 example_queue)) = 3"
    and nth: "\<forall>j < length (sentences (state example_queue)).
             sentences (state (skipTo_select 3 example_queue)) ! j =
               (if currentIndex (state example_queue) = int j
                   \<and> status (sentences (state example_queue) ! j) = Playing
                then (sentences (state example_queue) ! j)
                       \<lparr>status := (if audioBuffer (sentences (state example_queue) ! j) \<noteq> None
                                   then Ready else Pending)\<rparr>
                else sentences (state example_queue) ! j)"
    by simp_all
  from nth pre have n1: "status (sentences (state (skipTo_select 3 example_queue)) ! 1) = Ready"
    by simp
  from nth pre have n0: "status (sentences (state (skipTo_select 3 example_queue)) ! 0) = Played"
    by simp
  from C5_skipTo [of 7 example_queue] out have "skipTo 7 example_queue = example_queue"
    by simp
  with pre sel n0 n1 show ?thesis by (simp add: current_def)
qed

text \<open>
  The claim as stated fails: after sentence 0 has been played to its end and selected
  again, \<open>skipTo 1\<close> leaves it \<open>Played\<close>, although it holds cached audio.
\<close>

theorem C5_counterexample:
  "map_option statuses
     (run (load_events [''A.'', ''B.'']
           @ [CallPlay, SynthSettled 0 (Some (Chain 3 None)) (synth_ok 0 ''UklGRg''), AudioEnded,
              CallSkipTo 0])
        (usePlaybackQueue False 3)) = Some [Played, Generating]
   \<and> map_option current
     (run (load_events [''A.'', ''B.'']
           @ [CallPlay, SynthSettled 0 (Some (Chain 3 None)) (synth_ok 0 ''UklGRg''), AudioEnded,
              CallSkipTo 0])
        (usePlaybackQueue False 3)) = Some 0
   \<and> map_option cached
     (run (load_events [''A.'', ''B.'']
           @ [CallPlay, SynthSettled 0 (Some (Chain 3 None)) (synth_ok 0 ''UklGRg''), AudioEnded,
              CallSkipTo 0])
        (usePlaybackQueue False 3)) = Some [True, False]
   \<and> map_option statuses
     (run (load_events [''A.'', ''B.'']
           @ [CallPlay, SynthSettled 0 (Some (Chain 3 None)) (synth_ok 0 ''UklGRg''), AudioEnded,
              CallSkipTo 0, CallSkipTo 1])
        (usePlaybackQueue False 3)) = Some [Played, Generating]"
  by code_simp

subsection \<open>loadText\<close>

text \<open>
  C8 (as amended). The promise of \<open>loadText\<close> is fulfilled whatever the segmenter
  delivers. When the segmenter fails, the resumption clears \<open>isLoading\<close> and changes
  nothing else of the hook's variables: the sentences are the previous ones, as the
  \<open>stopPlayback\<close> at the start of \<open>loadText\<close> left them.
\<close>

theorem C8_segmentation_failure:
  "fst (loadText_resume text r w) = Fulfilled
   \<and> snd (loadText_resume text (Inl e) w)
       = (add_call (SplitText text) w)\<lparr>state := (state w)\<lparr>isLoading := False\<rparr>\<rparr>
   \<and> sentences (state (snd (loadText_resume text (Inl e) w))) = sentences (state w)
   \<and> sentences (state (loadText text w)) =
       (if trim_is_empty text then sentences (state w)
        else map reset_status (sentences (state w)))"
  by (simp add: loadText_resume_def loadText_def Let_def add_call_def add_task_def setState_def
      stopPlayback_def split: sum.splits)

theorem C8_segmentation_failure_witness:
  "fst (loadText_resume ''Next text.'' (Inl ''segmenter failed'') (loadText ''Next text.'' example_queue))
     = Fulfilled
   \<and> statuses (snd (loadText_resume ''Next text.'' (Inl ''segmenter failed'')
                     (loadText ''Next text.'' example_queue)))
     = [Ready, Ready, Pending, Generating, Pending]
   \<and> isLoading (state (snd (loadText_resume ''Next text.'' (Inl ''segmenter failed'')
                     (loadText ''Next text.'' example_queue)))) = False"
  using C8_segmentation_failure [of "''Next text.''" "Inl ''segmenter failed''"
      "loadText ''Next text.'' example_queue" "''segmenter failed''"]
    C8_segmentation_failure [of "''Next text.''" "Inl ''segmenter failed''"
      example_queue "''segmenter failed''"]
  by code_simp

text \<open>
  The claim as stated fails: a failing segmenter on the second load leaves the two
  sentences of the first load in place, and the promise is fulfilled.
\<close>

theorem C8_counterexample:
  "map_option statuses
     (run (load_events [''A.'', ''B.'']
           @ [CallLoadText ''Next text.'', SplitSettled ''Next text.'' (Inl ''segmenter failed'')])
        (usePlaybackQueue False 3)) = Some [Pending, Pending]
   \<and> map_option (fst \<circ> loadText_resume ''Next text.'' (Inl ''segmenter failed''))
     (run (load_events [''A.'', ''B.''] @ [CallLoadText ''Next text.''])
        (usePlaybackQueue False 3)) = Some Fulfilled"
  by code_simp

subsection \<open>Stale continuations\<close>

lemma state_chain_settled [simp]: "state (chain_settled c w) = state w"
  by (simp add: chain_settled_def set_isAdvancing_def split: option.splits)

lemma state_clear_poll [simp]: "state (clear_poll w) = state w"
  by (simp add: clear_poll_def clearInterval_def split: option.splits)






lemma state_musicPlay_resume [simp]: "state (musicPlay_resume index c ok w) = state w"
  by (simp add: musicPlay_resume_def startMusicStatePolling_def Let_def playWithHtml5Audio_def
      add_call_def split: option.splits)





text \<open>
  The tick of the polling interval compares its generation before
  \<^verbatim>\<open>await getMusicState()\<close> only. A tick suspended there when \<open>skipTo\<close> advances the
  counter still marks the newly started sentence \<open>Played\<close> when it resumes.
\<close>

lemma poll_resumption_unguarded:
  "map_option playbackGeneration
     (run (load_events [''A.'', ''B.'', ''C.'']
           @ [CallPlay, SynthSettled 0 (Some (Chain 3 None)) (synth_ok 0 ''UklGRg''),
              MusicPlaySettled 0 (Chain 3 None) True, SynthSettled 2 None (synth_ok 2 ''UklGRg''),
              IntervalTick 0, CallSkipTo 2])
        (usePlaybackQueue True 3)) = Some 4
   \<and> map_option statuses
     (run (load_events [''A.'', ''B.'', ''C.'']
           @ [CallPlay, SynthSettled 0 (Some (Chain 3 None)) (synth_ok 0 ''UklGRg''),
              MusicPlaySettled 0 (Chain 3 None) True, SynthSettled 2 None (synth_ok 2 ''UklGRg''),
              IntervalTick 0, CallSkipTo 2])
        (usePlaybackQueue True 3)) = Some [Ready, Generating, Playing]
   \<and> map_option statuses
     (run (load_events [''A.'', ''B.'', ''C.'']
           @ [CallPlay, SynthSettled 0 (Some (Chain 3 None)) (synth_ok 0 ''UklGRg''),
              MusicPlaySettled 0 (Chain 3 None) True, SynthSettled 2 None (synth_ok 2 ''UklGRg''),
              IntervalTick 0, CallSkipTo 2,
              MusicStateSettled 0 (MusicState False 1700000000000)])
        (usePlaybackQueue True 3)) = Some [Ready, Generating, Played]"
  by code_simp

subsection \<open>Two sentences playing\<close>

text \<open>
  C3. On Android the following execution ends with both sentences \<open>Playing\<close>: the text is
  loaded, \<open>play\<close> starts the generation of sentence 0 and waits for it; \<open>pause\<close> and
  \<open>play\<close> follow, and the resume branch of \<open>play\<close> starts the polling interval although
  nothing was handed to the media session; its first tick finds the session idle, marks
  sentence 0 \<open>Played\<close> and moves on to sentence 1, under the same generation as the chain
  that still waits for sentence 0; both generations complete, and each chain marks its own
  sentence \<open>Playing\<close>.
\<close>

theorem C3_two_sentences_playing:
  "map_option statuses
     (run (load_events [''A.'', ''B.'']
           @ [CallPlay, CallPause, CallPlay, IntervalTick 0,
              MusicStateSettled 0 (MusicState False 1700000000000),
              SynthSettled 1 (Some (Chain 3 (Some 0))) (synth_ok 1 ''UklGRg''),
              SynthSettled 0 (Some (Chain 3 None)) (synth_ok 0 ''UklGRg'')])
        (usePlaybackQueue True 3)) = Some [Playing, Playing]
   \<and> map_option count_playing
     (run (load_events [''A.'', ''B.'']
           @ [CallPlay, CallPause, CallPlay, IntervalTick 0,
              MusicStateSettled 0 (MusicState False 1700000000000),
              SynthSettled 1 (Some (Chain 3 (Some 0))) (synth_ok 1 ''UklGRg''),
              SynthSettled 0 (Some (Chain 3 None)) (synth_ok 0 ''UklGRg'')])
        (usePlaybackQueue True 3)) = Some 2"
  by code_simp

end
